theory Spec2Isabelle
  imports Main "HOL-Library.AList"
begin

section \<open>The flixable scraper of get\_movie\_data.ipynb\<close>

text \<open>
  The notebook talks to three collaborators that are not part of it: the HTTP client
  (\<^verbatim>\<open>requests.get\<close>), the HTML parser (\<^verbatim>\<open>BeautifulSoup\<close>) and the table
  constructor (\<^verbatim>\<open>pd.DataFrame\<close>). They are parameters of the model. Everything the
  notebook itself computes (the three helper functions and the orchestration cell) is
  translated statement by statement.

  Python exceptions are values of the type \<open>exn\<close>; a function that may raise returns
  \<open>exn + 'a\<close> with \<open>Inl\<close> the exception. A Python \<^verbatim>\<open>dict\<close> is an association list
  updated with \<open>AList.update\<close>: a new key is appended, an existing key keeps its position
  and takes the new value, which is the insertion order of a Python 3.7 dictionary.
  Characters are the code points below 256.
\<close>

subsection \<open>Values, responses and parsed documents\<close>

datatype exn = AttributeError | IndexError | KeyError | RequestException | JSONDecodeError

datatype pyval =
    PNone
  | PBool bool
  | PInt int
  | PStr string
  | PList "pyval list"
  | PDict "(string \<times> pyval) list"

type_synonym dict = "(string \<times> pyval) list"

text \<open>
  What the notebook reads of a \<^verbatim>\<open>requests.Response\<close>: the flag \<^verbatim>\<open>ok\<close>, the body
  \<^verbatim>\<open>text\<close> and the result of \<^verbatim>\<open>json()\<close>, which raises when the body is not JSON.
\<close>

record response =
  resp_ok :: bool
  resp_text :: string
  resp_json :: "exn + pyval"

text \<open>
  What the notebook reads of a \<^verbatim>\<open>bs4\<close> element: its \<^verbatim>\<open>text\<close> and its attributes.
\<close>

record tag =
  tag_text :: string
  tag_attrs :: "(string \<times> string) list"

text \<open>
  A parsed document answers the two queries the notebook asks: \<^verbatim>\<open>select(selector)\<close>,
  the list of all matches, and \<^verbatim>\<open>find(name, attrs)\<close>, the first match or \<^verbatim>\<open>None\<close>.
\<close>

record soup =
  soup_select :: "string \<Rightarrow> tag list"
  soup_find :: "string \<Rightarrow> (string \<times> string) list \<Rightarrow> tag option"

text \<open>
  A request is the URL and the query parameters. The answer of the web to a request may
  depend on all the requests made before it, so the state that the model threads through
  every call is the list of requests made so far; it is also the trace of the run.
\<close>

type_synonym request = "string \<times> dict"

type_synonym log = "request list"

record env =
  requests_get :: "log \<Rightarrow> request \<Rightarrow> exn + response"
  BeautifulSoup :: "string \<Rightarrow> soup"
  OMDB_API_KEY :: string

definition http_get :: "env \<Rightarrow> string \<Rightarrow> dict \<Rightarrow> log \<Rightarrow> (exn + response) \<times> log" where
  "http_get env url params lg = (requests_get env lg (url, params), lg @ [(url, params)])"

subsection \<open>Constants of the first cell\<close>

definition N_PAGES :: int where
  "N_PAGES = 30"

definition FLIXABLE_REQUEST_URL :: string where
  "FLIXABLE_REQUEST_URL = ''http://www.flixable.com''"

definition MOVIE_TITLE_SELECTOR :: string where
  "MOVIE_TITLE_SELECTOR = ''.title''"

definition OMDB_REQUEST_URL :: string where
  "OMDB_REQUEST_URL = ''http://www.omdbapi.com''"

subsection \<open>String methods\<close>

text \<open>\<^verbatim>\<open>str.isspace\<close> on the code points below 256.\<close>

definition isspace :: "char \<Rightarrow> bool" where
  "isspace c \<longleftrightarrow> c \<in> set [CHR 0x09, CHR 0x0A, CHR 0x0B, CHR 0x0C, CHR 0x0D,
     CHR 0x1C, CHR 0x1D, CHR 0x1E, CHR 0x1F, CHR 0x20, CHR 0x85, CHR 0xA0]"

text \<open>\<^verbatim>\<open>s.strip()\<close>: leading and trailing whitespace removed.\<close>

definition strip :: "string \<Rightarrow> string" where
  "strip s = rev (dropWhile isspace (rev (dropWhile isspace s)))"

text \<open>
  \<^verbatim>\<open>s.split(c)\<close> for a separator of one character: the text is cut at every occurrence
  of the separator, so a text with \<open>n\<close> separators gives \<open>n + 1\<close> segments.
\<close>

fun split :: "char \<Rightarrow> string \<Rightarrow> string list" where
  "split c [] = [[]]"
| "split c (x # xs) =
     (if x = c then [] # split c xs
      else (let ys = split c xs in (x # hd ys) # tl ys))"

subsection \<open>get\_flixable\_movie\_urls\<close>

text \<open>
  The loop over the matched elements. \<^verbatim>\<open>movie_title['href']\<close> raises \<^verbatim>\<open>KeyError\<close>
  on an element without that attribute.
\<close>

fun movie_page_urls_loop ::
  "tag list \<Rightarrow> (string \<times> string) list \<Rightarrow> exn + (string \<times> string) list" where
  "movie_page_urls_loop [] movie_page_urls = Inr movie_page_urls"
| "movie_page_urls_loop (movie_title # movie_titles) movie_page_urls =
     (case map_of (tag_attrs movie_title) ''href'' of
        None \<Rightarrow> Inl KeyError
      | Some href \<Rightarrow>
          movie_page_urls_loop movie_titles
            (AList.update (tag_text movie_title) (FLIXABLE_REQUEST_URL @ href) movie_page_urls))"

definition get_flixable_movie_urls ::
  "env \<Rightarrow> dict \<Rightarrow> log \<Rightarrow> (exn + (string \<times> string) list) \<times> log" where
  "get_flixable_movie_urls env params lg =
     (case http_get env FLIXABLE_REQUEST_URL params lg of
        (Inl e, lg') \<Rightarrow> (Inl e, lg')
      | (Inr response, lg') \<Rightarrow>
          (let page_html = resp_text response;
               page_soup = BeautifulSoup env page_html;
               movie_titles = soup_select page_soup MOVIE_TITLE_SELECTOR
           in (movie_page_urls_loop movie_titles [], lg')))"

subsection \<open>get\_extra\_info\<close>

text \<open>
  \<^verbatim>\<open>response.json().keys()\<close> raises \<^verbatim>\<open>AttributeError\<close> when the decoded body is
  not an object. The conjunction is evaluated left to right, so the body of a response
  that is not \<^verbatim>\<open>ok\<close> is never decoded.
\<close>

definition omdb_request :: "env \<Rightarrow> string \<Rightarrow> string \<Rightarrow> request" where
  "omdb_request env title year =
     (OMDB_REQUEST_URL,
      [(''t'', PStr title), (''y'', PStr year), (''apikey'', PStr (OMDB_API_KEY env))])"

definition get_extra_info :: "env \<Rightarrow> string \<Rightarrow> string \<Rightarrow> log \<Rightarrow> (exn + dict) \<times> log" where
  "get_extra_info env title year lg =
     (let (url, params) = omdb_request env title year
      in case http_get env url params lg of
           (Inl e, lg') \<Rightarrow> (Inl e, lg')
         | (Inr response, lg') \<Rightarrow>
             if resp_ok response then
               (case resp_json response of
                  Inl e \<Rightarrow> (Inl e, lg')
                | Inr (PDict d) \<Rightarrow>
                    if ''Error'' \<notin> set (map fst d) then (Inr d, lg') else (Inr [], lg')
                | Inr _ \<Rightarrow> (Inl AttributeError, lg'))
             else (Inr [], lg'))"

subsection \<open>get\_info\<close>

text \<open>The four queries of the detail page: the tag name and the attributes asked for.\<close>

type_synonym query = "string \<times> (string \<times> string) list"

definition title_query :: query where
  "title_query = (''h1'', [(''class'', ''mb-3'')])"

definition year_query :: query where
  "year_query = (''span'', [(''class'', ''font-weight-bold mr-2'')])"

definition mpaa_rating_query :: query where
  "mpaa_rating_query =
     (''span'', [(''class'', ''border border-dark rounded font-weight-bold px-1 mr-2'')])"

definition added_to_netflix_query :: query where
  "added_to_netflix_query = (''div'', [(''class'', ''mb-4'')])"

text \<open>\<^verbatim>\<open>soup.find(name, attrs).text\<close>: \<^verbatim>\<open>AttributeError\<close> when nothing matches.\<close>

definition find_text :: "soup \<Rightarrow> query \<Rightarrow> exn + string" where
  "find_text sp q =
     (case soup_find sp (fst q) (snd q) of
        None \<Rightarrow> Inl AttributeError
      | Some t \<Rightarrow> Inr (tag_text t))"

text \<open>\<^verbatim>\<open>added_to_netflix.split(':')[1].strip()\<close>\<close>

definition extract_added_to_netflix :: "string \<Rightarrow> exn + string" where
  "extract_added_to_netflix added_to_netflix =
     (let parts = split CHR '':'' added_to_netflix
      in if 1 < length parts then Inr (strip (parts ! 1)) else Inl IndexError)"

text \<open>The statements of the \<^verbatim>\<open>try\<close> block, in their order.\<close>

definition flixable_fields :: "soup \<Rightarrow> exn + (string \<times> string \<times> string \<times> string)" where
  "flixable_fields sp =
     (case find_text sp title_query of
        Inl e \<Rightarrow> Inl e
      | Inr title_text \<Rightarrow>
     (case find_text sp year_query of
        Inl e \<Rightarrow> Inl e
      | Inr year \<Rightarrow>
     (case find_text sp mpaa_rating_query of
        Inl e \<Rightarrow> Inl e
      | Inr mpaa_rating \<Rightarrow>
     (case find_text sp added_to_netflix_query of
        Inl e \<Rightarrow> Inl e
      | Inr added_text \<Rightarrow>
     (case extract_added_to_netflix added_text of
        Inl e \<Rightarrow> Inl e
      | Inr added_to_netflix \<Rightarrow>
          Inr (strip title_text, year, mpaa_rating, added_to_netflix))))))"

text \<open>The five assignments that complete the record of a scraped page.\<close>

definition merge_info :: "dict \<Rightarrow> string \<Rightarrow> string \<Rightarrow> string \<Rightarrow> string \<Rightarrow> string \<Rightarrow> dict" where
  "merge_info info_dict title year mpaa_rating added_to_netflix url =
     AList.update ''flixable_url'' (PStr url)
       (AList.update ''added_to_netflix'' (PStr added_to_netflix)
         (AList.update ''mpaa_rating'' (PStr mpaa_rating)
           (AList.update ''Year'' (PStr year)
             (AList.update ''Title'' (PStr title) info_dict))))"

text \<open>
  One pass of the loop body: the record appended for \<open>url\<close>, or the exception that
  leaves the loop. Only \<^verbatim>\<open>AttributeError\<close> is handled.
\<close>

definition get_info_step :: "env \<Rightarrow> string \<Rightarrow> log \<Rightarrow> (exn + dict) \<times> log" where
  "get_info_step env url lg =
     (let default_info_dict = [(''flixable_url'', PStr url)]
      in case http_get env url [] lg of
           (Inl e, lg1) \<Rightarrow> (Inl e, lg1)
         | (Inr response, lg1) \<Rightarrow>
             if \<not> resp_ok response then (Inr default_info_dict, lg1)
             else
               (case flixable_fields (BeautifulSoup env (resp_text response)) of
                  Inl e \<Rightarrow>
                    if e = AttributeError then (Inr default_info_dict, lg1) else (Inl e, lg1)
                | Inr (title, year, mpaa_rating, added_to_netflix) \<Rightarrow>
                    (case get_extra_info env title year lg1 of
                       (Inl e, lg2) \<Rightarrow> (Inl e, lg2)
                     | (Inr info_dict, lg2) \<Rightarrow>
                         (Inr (merge_info info_dict title year mpaa_rating added_to_netflix url),
                          lg2))))"

fun get_info_loop :: "env \<Rightarrow> string list \<Rightarrow> dict list \<Rightarrow> log \<Rightarrow> (exn + dict list) \<times> log" where
  "get_info_loop env [] info_dicts lg = (Inr info_dicts, lg)"
| "get_info_loop env (url # flixable_urls) info_dicts lg =
     (case get_info_step env url lg of
        (Inl e, lg') \<Rightarrow> (Inl e, lg')
      | (Inr info_dict, lg') \<Rightarrow> get_info_loop env flixable_urls (info_dicts @ [info_dict]) lg')"

text \<open>
  The table built from a list of records has one row per record, in the order of the
  list; a field that a record lacks is a missing cell of its row.
\<close>

datatype dataframe = DataFrame (rows: "dict list")

definition get_info :: "env \<Rightarrow> string list \<Rightarrow> log \<Rightarrow> (exn + dataframe) \<times> log" where
  "get_info env flixable_urls lg =
     (case get_info_loop env flixable_urls [] lg of
        (Inl e, lg') \<Rightarrow> (Inl e, lg')
      | (Inr info_dicts, lg') \<Rightarrow> (Inr (DataFrame info_dicts), lg'))"

subsection \<open>The orchestration cell\<close>

definition flixable_params :: dict where
  "flixable_params =
     [(''min-rating'', PInt 0), (''min-year'', PInt 0), (''max-year'', PInt 3000),
      (''order'', PStr ''date''), (''page'', PInt 1)]"

text \<open>The request of the list page with a given page number.\<close>

definition page_request :: "dict \<Rightarrow> int \<Rightarrow> request" where
  "page_request params page = (FLIXABLE_REQUEST_URL, AList.update ''page'' (PInt page) params)"

text \<open>
  The loop over the page numbers: the parameter dictionary is updated in place and the
  values of the returned mapping are appended to \<open>movie_urls\<close>.
\<close>

fun harvest_pages ::
  "env \<Rightarrow> int list \<Rightarrow> dict \<Rightarrow> string list \<Rightarrow> log \<Rightarrow> (exn + string list) \<times> log" where
  "harvest_pages env [] params movie_urls lg = (Inr movie_urls, lg)"
| "harvest_pages env (page # pages) params movie_urls lg =
     (let params' = AList.update ''page'' (PInt page) params
      in case get_flixable_movie_urls env params' lg of
           (Inl e, lg') \<Rightarrow> (Inl e, lg')
         | (Inr movie_url_dict, lg') \<Rightarrow>
             harvest_pages env pages params' (movie_urls @ map snd movie_url_dict) lg')"

text \<open>The run, from the first request on; writing the table to the file is left out.\<close>

definition scrape :: "env \<Rightarrow> (exn + dataframe) \<times> log" where
  "scrape env =
     (case harvest_pages env [1..N_PAGES] flixable_params [] [] of
        (Inl e, lg) \<Rightarrow> (Inl e, lg)
      | (Inr movie_urls, lg) \<Rightarrow> get_info env movie_urls lg)"

subsection \<open>The date added, as the specification words it\<close>

text \<open>
  Split on the first colon and take the whole trailing segment, trimmed: everything after
  the first colon of the text.
\<close>

definition spec_added_to_netflix :: "string \<Rightarrow> string" where
  "spec_added_to_netflix s = strip (tl (dropWhile (\<lambda>x. x \<noteq> CHR '':'') s))"

subsection \<open>Example environments\<close>

text \<open>
  Concrete webs and documents on which the functions are evaluated: a detail page with the
  four elements, a list page with a repeated title, a metadata service that knows one
  title, a web without connection, a detail page whose date block has no colon, a web
  where the request of one detail page fails, a metadata service with a fixed body, and a
  second list page that repeats a title of the first.
\<close>

definition empty_soup :: soup where
  "empty_soup = \<lparr>soup_select = (\<lambda>sel. []), soup_find = (\<lambda>name attrs. None)\<rparr>"

definition detail_soup :: "string \<Rightarrow> soup" where
  "detail_soup added =
     \<lparr>soup_select = (\<lambda>sel. []),
      soup_find = (\<lambda>name attrs.
        if (name, attrs) = title_query then Some \<lparr>tag_text = '' Y '', tag_attrs = []\<rparr>
        else if (name, attrs) = year_query then Some \<lparr>tag_text = ''2000'', tag_attrs = []\<rparr>
        else if (name, attrs) = mpaa_rating_query then Some \<lparr>tag_text = ''PG'', tag_attrs = []\<rparr>
        else if (name, attrs) = added_to_netflix_query then Some \<lparr>tag_text = added, tag_attrs = []\<rparr>
        else None)\<rparr>"

definition list_soup :: soup where
  "list_soup =
     \<lparr>soup_select = (\<lambda>sel.
        if sel = MOVIE_TITLE_SELECTOR
        then [\<lparr>tag_text = ''A'', tag_attrs = [(''href'', ''/title/1/'')]\<rparr>,
              \<lparr>tag_text = ''B'', tag_attrs = [(''href'', ''/title/2/'')]\<rparr>,
              \<lparr>tag_text = ''A'', tag_attrs = [(''href'', ''/title/3/'')]\<rparr>]
        else []),
      soup_find = (\<lambda>name attrs. None)\<rparr>"

definition omdb_response :: "dict \<Rightarrow> exn + response" where
  "omdb_response params =
     (if map_of params ''t'' = Some (PStr ''Y'')
      then Inr \<lparr>resp_ok = True, resp_text = [],
             resp_json = Inr (PDict [(''Title'', PStr ''X''), (''Year'', PStr ''1999''),
                                     (''Genre'', PStr ''Drama'')])\<rparr>
      else if map_of params ''t'' = Some (PStr ''Z'')
      then Inr \<lparr>resp_ok = False, resp_text = [], resp_json = Inl JSONDecodeError\<rparr>
      else Inr \<lparr>resp_ok = True, resp_text = [],
             resp_json = Inr (PDict [(''Response'', PStr ''False''),
                                     (''Error'', PStr ''Movie not found!'')])\<rparr>)"

definition demo_env :: env where
  "demo_env =
     \<lparr>requests_get = (\<lambda>lg rq.
        if fst rq = OMDB_REQUEST_URL then omdb_response (snd rq)
        else if fst rq = ''http://www.flixable.com/title/1/''
        then Inr \<lparr>resp_ok = True, resp_text = ''detail'', resp_json = Inl JSONDecodeError\<rparr>
        else if fst rq = ''http://www.flixable.com/title/3/''
        then Inr \<lparr>resp_ok = True, resp_text = ''home'', resp_json = Inl JSONDecodeError\<rparr>
        else if fst rq = FLIXABLE_REQUEST_URL \<and> map_of (snd rq) ''page'' = Some (PInt 1)
        then Inr \<lparr>resp_ok = True, resp_text = ''list'', resp_json = Inl JSONDecodeError\<rparr>
        else Inr \<lparr>resp_ok = False, resp_text = [], resp_json = Inl JSONDecodeError\<rparr>),
      BeautifulSoup = (\<lambda>html.
        if html = ''detail'' then detail_soup ''Added to Netflix: January 1, 2020''
        else if html = ''list'' then list_soup
        else empty_soup),
      OMDB_API_KEY = ''key''\<rparr>"

definition offline_env :: env where
  "offline_env =
     \<lparr>requests_get = (\<lambda>lg rq. Inl RequestException),
      BeautifulSoup = (\<lambda>html. empty_soup),
      OMDB_API_KEY = ''key''\<rparr>"

definition no_colon_env :: env where
  "no_colon_env =
     \<lparr>requests_get = (\<lambda>lg rq.
        Inr \<lparr>resp_ok = True, resp_text = ''detail'', resp_json = Inl JSONDecodeError\<rparr>),
      BeautifulSoup = (\<lambda>html. detail_soup ''January 1, 2020''),
      OMDB_API_KEY = ''key''\<rparr>"

definition flaky_env :: env where
  "flaky_env =
     demo_env\<lparr>requests_get := (\<lambda>lg rq.
        if fst rq = ''http://www.flixable.com/title/9/'' then Inl RequestException
        else requests_get demo_env lg rq)\<rparr>"

definition payload_env :: "exn + pyval \<Rightarrow> env" where
  "payload_env body =
     \<lparr>requests_get = (\<lambda>lg rq. Inr \<lparr>resp_ok = True, resp_text = [], resp_json = body\<rparr>),
      BeautifulSoup = (\<lambda>html. empty_soup),
      OMDB_API_KEY = ''key''\<rparr>"

definition list_soup2 :: soup where
  "list_soup2 =
     \<lparr>soup_select = (\<lambda>sel.
        if sel = MOVIE_TITLE_SELECTOR
        then [\<lparr>tag_text = ''A'', tag_attrs = [(''href'', ''/title/4/'')]\<rparr>]
        else []),
      soup_find = (\<lambda>name attrs. None)\<rparr>"

definition two_page_env :: env where
  "two_page_env =
     \<lparr>requests_get = (\<lambda>lg rq.
        if map_of (snd rq) ''page'' = Some (PInt 1)
        then Inr \<lparr>resp_ok = True, resp_text = ''list'', resp_json = Inl JSONDecodeError\<rparr>
        else Inr \<lparr>resp_ok = True, resp_text = ''list2'', resp_json = Inl JSONDecodeError\<rparr>),
      BeautifulSoup = (\<lambda>html. if html = ''list'' then list_soup else list_soup2),
      OMDB_API_KEY = ''key''\<rparr>"

section \<open>Properties\<close>

subsection \<open>Splitting and trimming\<close>

lemmas demo_defs = demo_env_def omdb_response_def detail_soup_def list_soup_def empty_soup_def
  title_query_def year_query_def mpaa_rating_query_def added_to_netflix_query_def
  OMDB_REQUEST_URL_def FLIXABLE_REQUEST_URL_def MOVIE_TITLE_SELECTOR_def omdb_request_def

lemma split_not_Nil: "split c s \<noteq> []"
  by (induction s) (auto simp: Let_def)

lemma split_append_sep:
  "c \<notin> set pre \<Longrightarrow> split c (pre @ c # rest) = pre # split c rest"
  by (induction pre) (auto simp: Let_def)

lemma split_no_sep: "c \<notin> set s \<Longrightarrow> split c s = [s]"
  by (induction s) (auto simp: Let_def)

lemma hd_split: "hd (split c s) = takeWhile (\<lambda>x. x \<noteq> c) s"
  by (induction s) (auto simp: Let_def)

lemma extract_no_colon:
  "CHR '':'' \<notin> set s \<Longrightarrow> extract_added_to_netflix s = Inl IndexError"
  by (simp add: extract_added_to_netflix_def split_no_sep)

lemma extract_colon:
  "CHR '':'' \<notin> set label \<Longrightarrow>
    extract_added_to_netflix (label @ CHR '':'' # val) = Inr (strip (takeWhile (\<lambda>x. x \<noteq> CHR '':'') val))"
  by (simp add: extract_added_to_netflix_def split_append_sep split_not_Nil hd_split Let_def nth_Cons' hd_conv_nth[symmetric])

subsection \<open>The detail page\<close>

lemma find_text_exn: "find_text sp q = Inl e \<Longrightarrow> e = AttributeError \<and> soup_find sp (fst q) (snd q) = None"
  by (auto simp: find_text_def split: option.splits)

lemma find_text_None: "soup_find sp (fst q) (snd q) = None \<Longrightarrow> find_text sp q = Inl AttributeError"
  by (simp add: find_text_def)

lemma find_text_Some: "soup_find sp (fst q) (snd q) = Some t \<Longrightarrow> find_text sp q = Inr (tag_text t)"
  by (simp add: find_text_def)

lemma flixable_fields_miss:
  assumes "q \<in> {title_query, year_query, mpaa_rating_query, added_to_netflix_query}"
    and "soup_find sp (fst q) (snd q) = None"
  shows "flixable_fields sp = Inl AttributeError"
  using assms
  by (auto simp: flixable_fields_def find_text_None split: sum.splits dest: find_text_exn)

lemma flixable_fields_no_colon:
  assumes "\<forall>q \<in> {title_query, year_query, mpaa_rating_query}. soup_find sp (fst q) (snd q) \<noteq> None"
    and "soup_find sp (fst added_to_netflix_query) (snd added_to_netflix_query) = Some t"
    and "CHR '':'' \<notin> set (tag_text t)"
  shows "flixable_fields sp = Inl IndexError"
  using assms
  by (auto simp: flixable_fields_def find_text_Some extract_no_colon split: sum.splits dest: find_text_exn)

subsection \<open>The records of get\_info\<close>

lemma map_of_merge_info:
  "map_of (merge_info info_dict title year mpaa_rating added_to_netflix url) =
     (map_of info_dict)(''Title'' \<mapsto> PStr title, ''Year'' \<mapsto> PStr year,
        ''mpaa_rating'' \<mapsto> PStr mpaa_rating, ''added_to_netflix'' \<mapsto> PStr added_to_netflix,
        ''flixable_url'' \<mapsto> PStr url)"
  by (simp add: merge_info_def update_conv')

lemma get_info_step_flixable_url:
  assumes "get_info_step env url lg = (Inr r, lg')"
  shows "map_of r ''flixable_url'' = Some (PStr url)"
  using assms
  by (auto simp: get_info_step_def Let_def map_of_merge_info split: prod.splits sum.splits if_splits)

lemma get_info_loop_Inr:
  "get_info_loop env urls acc lg = (Inr rs, lg') \<Longrightarrow>
     \<exists>new. rs = acc @ new \<and> map (\<lambda>r. map_of r ''flixable_url'') new = map (\<lambda>u. Some (PStr u)) urls"
proof (induction urls arbitrary: acc lg)
  case Nil
  then show ?case by simp
next
  case (Cons url urls)
  from Cons.prems obtain r lg1 where
    step: "get_info_step env url lg = (Inr r, lg1)" and
    rest: "get_info_loop env urls (acc @ [r]) lg1 = (Inr rs, lg')"
    by (auto split: prod.splits sum.splits)
  from Cons.IH[OF rest] obtain new where "rs = (acc @ [r]) @ new"
    and "map (\<lambda>r. map_of r ''flixable_url'') new = map (\<lambda>u. Some (PStr u)) urls" by blast
  with get_info_step_flixable_url[OF step] show ?case by simp
qed


subsection \<open>The date added to the service\<close>

lemma in_set_dropWhile: "x \<in> set xs \<Longrightarrow> \<not> P x \<Longrightarrow> x \<in> set (dropWhile P xs)"
  by (induction xs) auto

lemma in_set_strip: "c \<in> set s \<Longrightarrow> \<not> isspace c \<Longrightarrow> c \<in> set (strip s)"
  by (simp add: strip_def in_set_dropWhile)

lemma set_strip: "set (strip s) \<subseteq> set s"
proof -
  have "set (dropWhile isspace (rev (dropWhile isspace s))) \<subseteq> set (rev (dropWhile isspace s))"
    by (rule set_dropWhileD[THEN subsetI]) 
  also have "\<dots> \<subseteq> set s" by (auto dest: set_dropWhileD)
  finally show ?thesis by (simp add: strip_def)
qed

lemma colon_not_space: "\<not> isspace CHR '':''"
  by (simp add: isspace_def)

text \<open>
  C6, amended. For a text block \<open>label : value\<close> whose label has no colon, the extracted
  \<^verbatim>\<open>added_to_netflix\<close> is the trimmed segment between the first colon and the second
  one, or the end of the text (\<^verbatim>\<open>split(':')[1]\<close> cuts at every colon). It is the whole
  trailing segment, as the specification words it, if and only if the value has no colon of
  its own.
\<close>

theorem added_to_netflix_second_segment:
  assumes "CHR '':'' \<notin> set label"
  shows "extract_added_to_netflix (label @ CHR '':'' # val) =
           Inr (strip (takeWhile (\<lambda>x. x \<noteq> CHR '':'') val)) \<and>
         (extract_added_to_netflix (label @ CHR '':'' # val) =
            Inr (spec_added_to_netflix (label @ CHR '':'' # val))
          \<longleftrightarrow> CHR '':'' \<notin> set val)"
proof -
  let ?seg = "takeWhile (\<lambda>x. x \<noteq> CHR '':'') val"
  have spec: "spec_added_to_netflix (label @ CHR '':'' # val) = strip val"
    using assms by (simp add: spec_added_to_netflix_def dropWhile_append3 dropWhile_append)
  have code: "extract_added_to_netflix (label @ CHR '':'' # val) = Inr (strip ?seg)"
    using assms by (rule extract_colon)
  have "strip ?seg = strip val \<longleftrightarrow> CHR '':'' \<notin> set val"
  proof
    assume eq: "strip ?seg = strip val"
    show "CHR '':'' \<notin> set val"
    proof
      assume "CHR '':'' \<in> set val"
      then have "CHR '':'' \<in> set (strip val)"
        using colon_not_space by (rule in_set_strip)
      with eq have "CHR '':'' \<in> set (strip ?seg)" by simp
      with set_strip[of ?seg] have "CHR '':'' \<in> set ?seg" by blast
      then show False by (auto dest: set_takeWhileD)
    qed
  next
    assume "CHR '':'' \<notin> set val"
    then have "\<forall>x \<in> set val. x \<noteq> CHR '':''" by auto
    then have "?seg = val" by simp
    then show "strip ?seg = strip val" by (simp only:)
  qed
  with spec code show ?thesis by simp
qed

theorem added_to_netflix_second_segment_witness:
  "CHR '':'' \<notin> set ''Added to Netflix'' \<and>
   extract_added_to_netflix (''Added to Netflix'' @ CHR '':'' # '' May 1, 2020 '') = Inr ''May 1, 2020'' \<and>
   extract_added_to_netflix (''Added to Netflix'' @ CHR '':'' # '' May 1, 2020 '') =
     Inr (spec_added_to_netflix (''Added to Netflix'' @ CHR '':'' # '' May 1, 2020 '')) \<and>
   extract_added_to_netflix (''Added'' @ CHR '':'' # '' 12:30'') = Inr ''12'' \<and>
   extract_added_to_netflix (''Added'' @ CHR '':'' # '' 12:30'') \<noteq>
     Inr (spec_added_to_netflix (''Added'' @ CHR '':'' # '' 12:30''))"
  using added_to_netflix_second_segment[of "''Added to Netflix''" "'' May 1, 2020 ''"]
    added_to_netflix_second_segment[of "''Added''" "'' 12:30''"]
  by (simp add: spec_added_to_netflix_def strip_def isspace_def)

text \<open>
  C6 as stated fails on a value that contains a colon: of \<^verbatim>\<open>Added: 12:30\<close> the code
  keeps \<^verbatim>\<open>12\<close>, the whole trailing segment is \<^verbatim>\<open>12:30\<close>.
\<close>

theorem added_to_netflix_counterexample:
  "extract_added_to_netflix ''Added: 12:30'' = Inr ''12'' \<and>
   spec_added_to_netflix ''Added: 12:30'' = ''12:30''"
  by (simp add: extract_added_to_netflix_def spec_added_to_netflix_def strip_def isspace_def Let_def)

subsection \<open>The metadata service\<close>

text \<open>
  What \<^verbatim>\<open>get_extra_info\<close> does by cases. A response that is \<^verbatim>\<open>ok\<close> and whose decoded
  payload is an object without the key \<^verbatim>\<open>Error\<close> gives that payload; a response that is
  not \<^verbatim>\<open>ok\<close>, or an object with the key \<^verbatim>\<open>Error\<close>, gives the empty mapping. A
  non-empty result is returned in the first case only. An exception of the HTTP client
  leaves the function.
\<close>

theorem get_extra_info_outcomes:
  "(requests_get env lg (omdb_request env title year) = Inr response \<and> resp_ok response \<and>
      resp_json response = Inr (PDict d) \<and> ''Error'' \<notin> fst ` set d \<longrightarrow>
        get_extra_info env title year lg = (Inr d, lg @ [omdb_request env title year])) \<and>
   (requests_get env lg (omdb_request env title year) = Inr response \<and> resp_ok response \<and>
      resp_json response = Inr (PDict d) \<and> ''Error'' \<in> fst ` set d \<longrightarrow>
        get_extra_info env title year lg = (Inr [], lg @ [omdb_request env title year])) \<and>
   (requests_get env lg (omdb_request env title year) = Inr response \<and> \<not> resp_ok response \<longrightarrow>
        get_extra_info env title year lg = (Inr [], lg @ [omdb_request env title year])) \<and>
   (requests_get env lg (omdb_request env title year) = Inl e \<longrightarrow>
        get_extra_info env title year lg = (Inl e, lg @ [omdb_request env title year])) \<and>
   (get_extra_info env title year lg = (Inr d, lg') \<and> d \<noteq> [] \<longrightarrow>
      (\<exists>r. requests_get env lg (omdb_request env title year) = Inr r \<and> resp_ok r \<and>
           resp_json r = Inr (PDict d) \<and> ''Error'' \<notin> fst ` set d))"
  by (auto simp: get_extra_info_def http_get_def Let_def
           split: prod.splits sum.splits pyval.splits if_splits)

theorem get_extra_info_outcomes_witness:
  "get_extra_info demo_env ''Y'' ''2000'' [] =
     (Inr [(''Title'', PStr ''X''), (''Year'', PStr ''1999''), (''Genre'', PStr ''Drama'')],
      [omdb_request demo_env ''Y'' ''2000'']) \<and>
   get_extra_info demo_env ''Q'' ''2000'' [] = (Inr [], [omdb_request demo_env ''Q'' ''2000'']) \<and>
   get_extra_info demo_env ''Z'' ''2000'' [] = (Inr [], [omdb_request demo_env ''Z'' ''2000'']) \<and>
   get_extra_info offline_env ''Y'' ''2000'' [] =
     (Inl RequestException, [omdb_request offline_env ''Y'' ''2000''])"
  using get_extra_info_outcomes[of demo_env "[]" "''Y''" "''2000''"
          "\<lparr>resp_ok = True, resp_text = [],
             resp_json = Inr (PDict [(''Title'', PStr ''X''), (''Year'', PStr ''1999''),
                                     (''Genre'', PStr ''Drama'')])\<rparr>"
          "[(''Title'', PStr ''X''), (''Year'', PStr ''1999''), (''Genre'', PStr ''Drama'')]"]
    get_extra_info_outcomes[of demo_env "[]" "''Q''" "''2000''"
          "\<lparr>resp_ok = True, resp_text = [],
             resp_json = Inr (PDict [(''Response'', PStr ''False''),
                                     (''Error'', PStr ''Movie not found!'')])\<rparr>"
          "[(''Response'', PStr ''False''), (''Error'', PStr ''Movie not found!'')]"]
    get_extra_info_outcomes[of demo_env "[]" "''Z''" "''2000''"
          "\<lparr>resp_ok = False, resp_text = [], resp_json = Inl JSONDecodeError\<rparr>"]
    get_extra_info_outcomes[of offline_env "[]" "''Y''" "''2000''" _ _ RequestException]
  by (simp add: demo_defs offline_env_def)

text \<open>
  C5. The claim asks for the empty mapping, and never a fault, on every outcome that is not
  a success, a failed request included; the docstring of \<^verbatim>\<open>get_extra_info\<close> promises a
  blank dict if the API request failed. The code has no handler: when the HTTP client
  fails the request with an exception, \<^verbatim>\<open>get_extra_info\<close> raises that exception, and
  when an \<^verbatim>\<open>ok\<close> response has a body that is not JSON, or is JSON but not an object,
  it raises as well.
\<close>

theorem get_extra_info_failed_request:
  "requests_get offline_env [] (omdb_request offline_env ''Y'' ''2000'') = Inl RequestException \<and>
   get_extra_info offline_env ''Y'' ''2000'' [] =
     (Inl RequestException, [omdb_request offline_env ''Y'' ''2000'']) \<and>
   get_extra_info (payload_env (Inl JSONDecodeError)) ''Y'' ''2000'' [] =
     (Inl JSONDecodeError, [omdb_request (payload_env (Inl JSONDecodeError)) ''Y'' ''2000'']) \<and>
   get_extra_info (payload_env (Inr (PList []))) ''Y'' ''2000'' [] =
     (Inl AttributeError, [omdb_request (payload_env (Inr (PList []))) ''Y'' ''2000''])"
  by (simp add: get_extra_info_def http_get_def offline_env_def payload_env_def omdb_request_def)

subsection \<open>Degraded records\<close>

lemma get_info_step_default:
  assumes "requests_get env lg (url, []) = Inr response"
    and "\<not> resp_ok response \<or>
         flixable_fields (BeautifulSoup env (resp_text response)) = Inl AttributeError"
  shows "get_info_step env url lg = (Inr [(''flixable_url'', PStr url)], lg @ [(url, [])])"
  using assms by (auto simp: get_info_step_def http_get_def Let_def)

lemma get_info_step_raise:
  assumes "requests_get env lg (url, []) = Inr response"
    and "resp_ok response"
    and "flixable_fields (BeautifulSoup env (resp_text response)) = Inl e"
    and "e \<noteq> AttributeError"
  shows "get_info_step env url lg = (Inl e, lg @ [(url, [])])"
  using assms by (auto simp: get_info_step_def http_get_def Let_def)

text \<open>
  The two failures that the loop handles. When the HTTP client returns a response for the
  detail page of a URL and either the response is not \<^verbatim>\<open>ok\<close>, or it is \<^verbatim>\<open>ok\<close> and
  one of the four queries (title, year, rating, date added) finds no element, the record
  of that URL is exactly \<^verbatim>\<open>{'flixable_url': url}\<close>, and the loop goes on with the next
  URL, that record appended to the records collected so far.
\<close>

theorem degraded_record:
  assumes "requests_get env lg (url, []) = Inr response"
    and "\<not> resp_ok response \<or>
         (\<exists>q \<in> {title_query, year_query, mpaa_rating_query, added_to_netflix_query}.
            soup_find (BeautifulSoup env (resp_text response)) (fst q) (snd q) = None)"
  shows "get_info_step env url lg = (Inr [(''flixable_url'', PStr url)], lg @ [(url, [])]) \<and>
         get_info_loop env (url # flixable_urls) info_dicts lg =
           get_info_loop env flixable_urls (info_dicts @ [[(''flixable_url'', PStr url)]])
             (lg @ [(url, [])])"
proof -
  from assms(2) have "\<not> resp_ok response \<or>
      flixable_fields (BeautifulSoup env (resp_text response)) = Inl AttributeError"
    using flixable_fields_miss by blast
  from get_info_step_default[OF assms(1) this] show ?thesis by simp
qed

theorem degraded_record_witness:
  "get_info_loop demo_env
     [''http://www.flixable.com/title/2/'', ''http://www.flixable.com/title/3/''] [] [] =
     (Inr [[(''flixable_url'', PStr ''http://www.flixable.com/title/2/'')],
           [(''flixable_url'', PStr ''http://www.flixable.com/title/3/'')]],
      [(''http://www.flixable.com/title/2/'', []), (''http://www.flixable.com/title/3/'', [])])"
proof -
  have r2: "requests_get demo_env [] (''http://www.flixable.com/title/2/'', []) =
      Inr \<lparr>resp_ok = False, resp_text = [], resp_json = Inl JSONDecodeError\<rparr>"
    by (simp add: demo_defs)
  have r3: "requests_get demo_env ([] @ [(''http://www.flixable.com/title/2/'', [])])
        (''http://www.flixable.com/title/3/'', []) =
      Inr \<lparr>resp_ok = True, resp_text = ''home'', resp_json = Inl JSONDecodeError\<rparr>"
    by (simp add: demo_defs)
  have miss: "\<exists>q \<in> {title_query, year_query, mpaa_rating_query, added_to_netflix_query}.
      soup_find (BeautifulSoup demo_env ''home'') (fst q) (snd q) = None"
    by (rule bexI[of _ title_query]) (simp_all add: demo_env_def empty_soup_def)
  have "get_info_loop demo_env
     [''http://www.flixable.com/title/2/'', ''http://www.flixable.com/title/3/''] [] [] =
     get_info_loop demo_env [''http://www.flixable.com/title/3/'']
       ([] @ [[(''flixable_url'', PStr ''http://www.flixable.com/title/2/'')]])
       ([] @ [(''http://www.flixable.com/title/2/'', [])])"
    using degraded_record[OF r2] by simp
  also have "\<dots> = get_info_loop demo_env []
       (([] @ [[(''flixable_url'', PStr ''http://www.flixable.com/title/2/'')]]) @
          [[(''flixable_url'', PStr ''http://www.flixable.com/title/3/'')]])
       (([] @ [(''http://www.flixable.com/title/2/'', [])]) @
          [(''http://www.flixable.com/title/3/'', [])])"
    using degraded_record[OF r3] miss by simp
  finally show ?thesis by simp
qed

text \<open>
  C3. The claim asks for the record \<^verbatim>\<open>{'flixable_url': url}\<close>, and the next URL
  processed, whenever the fetch of the detail page is not successful; the docstring of
  \<^verbatim>\<open>get_info\<close> promises that failed records have the URL column only. A fetch that
  fails with an exception of the HTTP client is not successful, and there the code emits
  no record and does not go on: \<^verbatim>\<open>requests.get(url)\<close> stands outside the \<^verbatim>\<open>try\<close>, so
  the exception leaves the loop body and the loop.
\<close>

theorem failed_request_no_record:
  "requests_get flaky_env [] (''http://www.flixable.com/title/9/'', []) = Inl RequestException \<and>
   get_info_step flaky_env ''http://www.flixable.com/title/9/'' [] =
     (Inl RequestException, [(''http://www.flixable.com/title/9/'', [])]) \<and>
   get_info_loop flaky_env
     [''http://www.flixable.com/title/9/'', ''http://www.flixable.com/title/2/''] [] [] =
     (Inl RequestException, [(''http://www.flixable.com/title/9/'', [])])"
  by (simp add: get_info_step_def http_get_def flaky_env_def)

subsection \<open>A date block without a colon\<close>

text \<open>
  C9. When the detail page is fetched with an \<^verbatim>\<open>ok\<close> response and all four queries find
  an element, but the text of the date block has no colon, the loop body raises
  \<^verbatim>\<open>IndexError\<close>. The handler takes \<^verbatim>\<open>AttributeError\<close> only, so no record is
  emitted for the URL: the exception leaves the loop and \<^verbatim>\<open>get_info\<close>, whatever was
  collected before and whatever URLs remain.
\<close>

theorem no_colon_raises_IndexError:
  assumes "requests_get env lg (url, []) = Inr response"
    and "resp_ok response"
    and "\<forall>q \<in> {title_query, year_query, mpaa_rating_query}.
           soup_find (BeautifulSoup env (resp_text response)) (fst q) (snd q) \<noteq> None"
    and "soup_find (BeautifulSoup env (resp_text response))
           (fst added_to_netflix_query) (snd added_to_netflix_query) = Some t"
    and "CHR '':'' \<notin> set (tag_text t)"
  shows "get_info_step env url lg = (Inl IndexError, lg @ [(url, [])]) \<and>
         get_info_loop env (url # flixable_urls) info_dicts lg = (Inl IndexError, lg @ [(url, [])]) \<and>
         get_info env (url # flixable_urls) lg = (Inl IndexError, lg @ [(url, [])])"
proof -
  have "flixable_fields (BeautifulSoup env (resp_text response)) = Inl IndexError"
    using assms(3-5) by (rule flixable_fields_no_colon)
  from get_info_step_raise[OF assms(1,2) this]
  have "get_info_step env url lg = (Inl IndexError, lg @ [(url, [])])" by simp
  then show ?thesis by (simp add: get_info_def)
qed

theorem no_colon_raises_IndexError_witness:
  "get_info no_colon_env [''http://www.flixable.com/title/1/'', ''http://www.flixable.com/title/2/''] [] =
     (Inl IndexError, [(''http://www.flixable.com/title/1/'', [])])"
  using no_colon_raises_IndexError[of no_colon_env "[]" "''http://www.flixable.com/title/1/''"
          "\<lparr>resp_ok = True, resp_text = ''detail'', resp_json = Inl JSONDecodeError\<rparr>"
          "\<lparr>tag_text = ''January 1, 2020'', tag_attrs = []\<rparr>"
          "[''http://www.flixable.com/title/2/'']"]
  by (simp add: no_colon_env_def detail_soup_def title_query_def year_query_def
        mpaa_rating_query_def added_to_netflix_query_def)

subsection \<open>Merging the detail page into the metadata\<close>

text \<open>
  C4. When the detail page of a URL is scraped (the four fields extracted) and the metadata
  call returns the mapping \<open>info_dict\<close>, the record of the URL has \<^verbatim>\<open>Title\<close> and
  \<^verbatim>\<open>Year\<close> (and the rating, the date and the URL) from the detail page, whatever the
  metadata say under these names, and every other field as in the metadata. For the
  payload \<^verbatim>\<open>{"Title": "X", "Year": "1999", "Genre": "Drama"}\<close> the record is the payload
  with the title and year of the page, \<^verbatim>\<open>Genre\<close> kept, and the three other fields appended.
\<close>

theorem merge_precedence:
  assumes "requests_get env lg (url, []) = Inr response"
    and "resp_ok response"
    and "flixable_fields (BeautifulSoup env (resp_text response)) =
           Inr (title, year, mpaa_rating, added_to_netflix)"
    and "get_extra_info env title year (lg @ [(url, [])]) = (Inr info_dict, lg')"
  shows "\<exists>r. get_info_step env url lg = (Inr r, lg') \<and>
           map_of r ''Title'' = Some (PStr title) \<and>
           map_of r ''Year'' = Some (PStr year) \<and>
           map_of r ''mpaa_rating'' = Some (PStr mpaa_rating) \<and>
           map_of r ''added_to_netflix'' = Some (PStr added_to_netflix) \<and>
           map_of r ''flixable_url'' = Some (PStr url) \<and>
           (\<forall>k. k \<notin> {''Title'', ''Year'', ''mpaa_rating'', ''added_to_netflix'', ''flixable_url''}
                \<longrightarrow> map_of r k = map_of info_dict k) \<and>
           (info_dict = [(''Title'', PStr ''X''), (''Year'', PStr ''1999''), (''Genre'', PStr ''Drama'')]
              \<longrightarrow> r = [(''Title'', PStr title), (''Year'', PStr year), (''Genre'', PStr ''Drama''),
                     (''mpaa_rating'', PStr mpaa_rating),
                     (''added_to_netflix'', PStr added_to_netflix),
                     (''flixable_url'', PStr url)])"
proof -
  have "get_info_step env url lg =
          (Inr (merge_info info_dict title year mpaa_rating added_to_netflix url), lg')"
    using assms by (simp add: get_info_step_def http_get_def Let_def)
  moreover have "info_dict = [(''Title'', PStr ''X''), (''Year'', PStr ''1999''), (''Genre'', PStr ''Drama'')]
     \<Longrightarrow> merge_info info_dict title year mpaa_rating added_to_netflix url =
        [(''Title'', PStr title), (''Year'', PStr year), (''Genre'', PStr ''Drama''),
                     (''mpaa_rating'', PStr mpaa_rating),
                     (''added_to_netflix'', PStr added_to_netflix),
                     (''flixable_url'', PStr url)]"
    by (simp add: merge_info_def)
  ultimately show ?thesis
    by (simp add: map_of_merge_info)
qed

theorem merge_precedence_witness:
  "get_info_step demo_env ''http://www.flixable.com/title/1/'' [] =
     (Inr [(''Title'', PStr ''Y''), (''Year'', PStr ''2000''), (''Genre'', PStr ''Drama''),
           (''mpaa_rating'', PStr ''PG''), (''added_to_netflix'', PStr ''January 1, 2020''),
           (''flixable_url'', PStr ''http://www.flixable.com/title/1/'')],
      [(''http://www.flixable.com/title/1/'', []), omdb_request demo_env ''Y'' ''2000''])"
proof -
  have resp: "requests_get demo_env [] (''http://www.flixable.com/title/1/'', []) =
      Inr \<lparr>resp_ok = True, resp_text = ''detail'', resp_json = Inl JSONDecodeError\<rparr>"
    by (simp add: demo_defs)
  have fields: "flixable_fields (BeautifulSoup demo_env ''detail'') =
      Inr (''Y'', ''2000'', ''PG'', ''January 1, 2020'')"
    by (simp add: demo_defs flixable_fields_def find_text_def extract_added_to_netflix_def
          strip_def isspace_def Let_def)
  have extra: "get_extra_info demo_env ''Y'' ''2000'' ([] @ [(''http://www.flixable.com/title/1/'', [])]) =
      (Inr [(''Title'', PStr ''X''), (''Year'', PStr ''1999''), (''Genre'', PStr ''Drama'')],
       [(''http://www.flixable.com/title/1/'', []), omdb_request demo_env ''Y'' ''2000''])"
    by (simp add: demo_defs get_extra_info_def http_get_def)
  from merge_precedence[OF resp _ _ extra, of "''PG''" "''January 1, 2020''"] fields
  show ?thesis by auto
qed

subsection \<open>One record per URL\<close>

lemmas eval_defs = get_info_def get_info_step_def http_get_def get_extra_info_def
  flixable_fields_def find_text_def extract_added_to_netflix_def strip_def isspace_def Let_def

lemma demo_get_info:
  "get_info demo_env [''http://www.flixable.com/title/1/'', ''http://www.flixable.com/title/2/'',
      ''http://www.flixable.com/title/3/''] [] =
   (Inr (DataFrame
        [[(''Title'', PStr ''Y''), (''Year'', PStr ''2000''),
          (''Genre'', PStr ''Drama''), (''mpaa_rating'', PStr ''PG''),
          (''added_to_netflix'', PStr ''January 1, 2020''),
          (''flixable_url'', PStr ''http://www.flixable.com/title/1/'')],
         [(''flixable_url'', PStr ''http://www.flixable.com/title/2/'')],
         [(''flixable_url'', PStr ''http://www.flixable.com/title/3/'')]]),
  [(''http://www.flixable.com/title/1/'', []),
   (''http://www.omdbapi.com'',
    [(''t'', PStr ''Y''), (''y'', PStr ''2000''),
     (''apikey'', PStr ''key'')]),
   (''http://www.flixable.com/title/2/'', []),
   (''http://www.flixable.com/title/3/'', [])])"
  by (simp add: eval_defs demo_defs merge_info_def)

text \<open>
  C2. Whenever \<^verbatim>\<open>get_info\<close> returns its table, the table has a row for every input URL,
  and the row at the position of a URL has the field \<^verbatim>\<open>flixable_url\<close>, whose value is
  that URL: the field is present in every record, degraded or complete.
\<close>

theorem record_has_flixable_url:
  assumes "get_info env flixable_urls lg = (Inr df, lg')"
  shows "length (rows df) = length flixable_urls \<and>
         (\<forall>i < length flixable_urls.
            map_of (rows df ! i) ''flixable_url'' = Some (PStr (flixable_urls ! i)))"
proof -
  from assms have loop: "get_info_loop env flixable_urls [] lg = (Inr (rows df), lg')"
    by (auto simp: get_info_def split: prod.splits sum.splits)
  from get_info_loop_Inr[OF loop]
  have m: "map (\<lambda>r. map_of r ''flixable_url'') (rows df) = map (\<lambda>u. Some (PStr u)) flixable_urls"
    by simp
  then have len: "length (rows df) = length flixable_urls"
    by (rule map_eq_imp_length_eq)
  have "map_of (rows df ! i) ''flixable_url'' = Some (PStr (flixable_urls ! i))"
    if "i < length flixable_urls" for i
  proof -
    have "map (\<lambda>r. map_of r ''flixable_url'') (rows df) ! i =
          map (\<lambda>u. Some (PStr u)) flixable_urls ! i" by (simp only: m)
    with that len show ?thesis by simp
  qed
  with len show ?thesis by blast
qed

theorem record_has_flixable_url_witness:
  "get_info demo_env [''http://www.flixable.com/title/1/'', ''http://www.flixable.com/title/2/'',
      ''http://www.flixable.com/title/3/''] [] =
   (Inr (DataFrame
        [[(''Title'', PStr ''Y''), (''Year'', PStr ''2000''),
          (''Genre'', PStr ''Drama''), (''mpaa_rating'', PStr ''PG''),
          (''added_to_netflix'', PStr ''January 1, 2020''),
          (''flixable_url'', PStr ''http://www.flixable.com/title/1/'')],
         [(''flixable_url'', PStr ''http://www.flixable.com/title/2/'')],
         [(''flixable_url'', PStr ''http://www.flixable.com/title/3/'')]]),
  [(''http://www.flixable.com/title/1/'', []),
   (''http://www.omdbapi.com'',
    [(''t'', PStr ''Y''), (''y'', PStr ''2000''),
     (''apikey'', PStr ''key'')]),
   (''http://www.flixable.com/title/2/'', []),
   (''http://www.flixable.com/title/3/'', [])]) \<and>
   map (\<lambda>r. map_of r ''flixable_url'')
     (rows (DataFrame
        [[(''Title'', PStr ''Y''), (''Year'', PStr ''2000''),
          (''Genre'', PStr ''Drama''), (''mpaa_rating'', PStr ''PG''),
          (''added_to_netflix'', PStr ''January 1, 2020''),
          (''flixable_url'', PStr ''http://www.flixable.com/title/1/'')],
         [(''flixable_url'', PStr ''http://www.flixable.com/title/2/'')],
         [(''flixable_url'', PStr ''http://www.flixable.com/title/3/'')]])) =
   [Some (PStr ''http://www.flixable.com/title/1/''),
    Some (PStr ''http://www.flixable.com/title/2/''),
    Some (PStr ''http://www.flixable.com/title/3/'')]"
  using demo_get_info record_has_flixable_url[OF demo_get_info] by simp

text \<open>
  C1. The claim asks for one record per input URL even when individual URLs fail, and the
  docstring of \<^verbatim>\<open>get_info\<close> promises a record for each url. When the request of one
  detail page fails with an exception of the HTTP client, \<^verbatim>\<open>get_info\<close> returns no
  table at all: the exception leaves the function, the record already built for the URL
  before is lost and the URL after is never fetched.
\<close>

theorem failed_request_no_table:
  "requests_get flaky_env
     [(''http://www.flixable.com/title/1/'', []), omdb_request flaky_env ''Y'' ''2000'']
     (''http://www.flixable.com/title/9/'', []) = Inl RequestException \<and>
   get_info flaky_env
     [''http://www.flixable.com/title/1/'', ''http://www.flixable.com/title/9/'',
      ''http://www.flixable.com/title/2/''] [] =
     (Inl RequestException,
      [(''http://www.flixable.com/title/1/'', []), omdb_request flaky_env ''Y'' ''2000'',
       (''http://www.flixable.com/title/9/'', [])])"
  by (simp add: eval_defs demo_defs flaky_env_def merge_info_def)

subsection \<open>The list pages\<close>

lemma movie_page_urls_loop_updates:
  assumes "map (\<lambda>t. map_of (tag_attrs t) ''href'') ts = map Some hrefs"
  shows "movie_page_urls_loop ts d =
           Inr (AList.updates (map tag_text ts) (map ((@) FLIXABLE_REQUEST_URL) hrefs) d)"
  using assms
proof (induction ts arbitrary: hrefs d)
  case Nil
  then show ?case by simp
next
  case (Cons t ts)
  then obtain h hs where "hrefs = h # hs" by (cases hrefs) auto
  with Cons show ?case by simp
qed

lemma update_fresh: "k \<notin> fst ` set al \<Longrightarrow> AList.update k v al = al @ [(k, v)]"
  by (induction al) auto

lemma updates_fresh:
  "distinct ks \<Longrightarrow> length ks = length vs \<Longrightarrow> set ks \<inter> fst ` set al = {} \<Longrightarrow>
     AList.updates ks vs al = al @ zip ks vs"
proof (induction ks arbitrary: vs al)
  case Nil
  then show ?case by simp
next
  case (Cons k ks)
  then obtain v vs' where vs: "vs = v # vs'" by (cases vs) auto
  from Cons.prems have "k \<notin> fst ` set al" by auto
  then have u: "AList.update k v al = al @ [(k, v)]" by (rule update_fresh)
  have "AList.updates ks vs' (al @ [(k, v)]) = (al @ [(k, v)]) @ zip ks vs'"
    using Cons.prems vs by (intro Cons.IH) auto
  with u vs show ?case by simp
qed

lemma keys_updates:
  "length ks = length vs \<Longrightarrow>
     fst ` set (AList.updates ks vs al) = set ks \<union> fst ` set al"
proof (induction ks arbitrary: vs al)
  case Nil
  then show ?case by simp
next
  case (Cons k ks)
  then obtain v vs' where vs: "vs = v # vs'" by (cases vs) auto
  with Cons show ?case by (auto simp: dom_update)
qed

lemma map_of_updates_last:
  assumes "length ks = length vs"
  shows "map_of (AList.updates ks vs []) = map_of (rev (zip ks vs))"
  by (simp add: updates_conv' map_upds_def)

lemma harvester_log:
  "get_flixable_movie_urls env params lg = (r, lg') \<Longrightarrow> lg' = lg @ [(FLIXABLE_REQUEST_URL, params)]"
  by (auto simp: get_flixable_movie_urls_def http_get_def Let_def split: sum.splits)

lemma harvester_result:
  assumes "requests_get env lg (FLIXABLE_REQUEST_URL, params) = Inr response"
  shows "get_flixable_movie_urls env params lg =
    (movie_page_urls_loop
       (soup_select (BeautifulSoup env (resp_text response)) MOVIE_TITLE_SELECTOR) [],
     lg @ [(FLIXABLE_REQUEST_URL, params)])"
  using assms by (simp add: get_flixable_movie_urls_def http_get_def Let_def)

lemma page_request_update [simp]:
  "page_request (AList.update ''page'' v params) page = page_request params page"
  by (simp add: page_request_def)

lemma harvest_pages_log_prefix:
  "\<exists>n \<le> length pages. snd (harvest_pages env pages params movie_urls lg) =
      lg @ map (page_request params) (take n pages) \<and>
      (\<forall>urls. fst (harvest_pages env pages params movie_urls lg) = Inr urls \<longrightarrow> n = length pages)"
proof (induction pages arbitrary: params movie_urls lg)
  case Nil
  show ?case by simp
next
  case (Cons page pages)
  let ?ps = "AList.update ''page'' (PInt page) params"
  obtain r lg1 where h: "get_flixable_movie_urls env ?ps lg = (r, lg1)" by force
  then have lg1: "lg1 = lg @ [page_request params page]"
    by (auto dest: harvester_log simp: page_request_def)
  show ?case
  proof (cases r)
    case (Inl e)
    with h lg1 have "snd (harvest_pages env (page # pages) params movie_urls lg) =
       lg @ map (page_request params) (take 1 (page # pages))"
      "\<forall>urls. fst (harvest_pages env (page # pages) params movie_urls lg) \<noteq> Inr urls"
      by (simp_all add: Let_def)
    then show ?thesis by (intro exI[of _ 1]) simp
  next
    case (Inr d)
    from Cons.IH[of ?ps "movie_urls @ map snd d" lg1] obtain n where
      n: "n \<le> length pages"
      "snd (harvest_pages env pages ?ps (movie_urls @ map snd d) lg1) =
         lg1 @ map (page_request ?ps) (take n pages)"
      "\<forall>urls. fst (harvest_pages env pages ?ps (movie_urls @ map snd d) lg1) = Inr urls \<longrightarrow> n = length pages"
      by blast
    with h Inr lg1 show ?thesis
      by (intro exI[of _ "Suc n"]) (simp add: Let_def)
  qed
qed

lemma harvest_pages_Inr:
  assumes "harvest_pages env pages params movie_urls0 lg = (Inr movie_urls, lg')"
  shows "lg' = lg @ map (page_request params) pages \<and>
    (\<exists>dicts. length dicts = length pages \<and>
       movie_urls = movie_urls0 @ concat (map (map snd) dicts) \<and>
       (\<forall>k < length pages.
          get_flixable_movie_urls env (snd (page_request params (pages ! k)))
             (lg @ map (page_request params) (take k pages)) =
            (Inr (dicts ! k), lg @ map (page_request params) (take (Suc k) pages))))"
  using assms
proof (induction pages arbitrary: params movie_urls0 lg)
  case Nil
  then show ?case by simp
next
  case (Cons page pages)
  let ?ps = "AList.update ''page'' (PInt page) params"
  from Cons.prems obtain d lg1 where
    h: "get_flixable_movie_urls env ?ps lg = (Inr d, lg1)" and
    rest: "harvest_pages env pages ?ps (movie_urls0 @ map snd d) lg1 = (Inr movie_urls, lg')"
    by (auto simp: Let_def split: prod.splits sum.splits)
  from h have lg1: "lg1 = lg @ [page_request params page]"
    by (auto dest: harvester_log simp: page_request_def)
  from Cons.IH[OF rest] obtain dicts where
    log: "lg' = lg1 @ map (page_request params) pages" and
    len: "length dicts = length pages" and
    urls: "movie_urls = (movie_urls0 @ map snd d) @ concat (map (map snd) dicts)" and
    each: "\<forall>k < length pages.
          get_flixable_movie_urls env (snd (page_request params (pages ! k)))
             (lg1 @ map (page_request params) (take k pages)) =
            (Inr (dicts ! k), lg1 @ map (page_request params) (take (Suc k) pages))"
    by auto
  have "\<forall>k < length (page # pages).
          get_flixable_movie_urls env (snd (page_request params ((page # pages) ! k)))
             (lg @ map (page_request params) (take k (page # pages))) =
            (Inr ((d # dicts) ! k), lg @ map (page_request params) (take (Suc k) (page # pages)))"
  proof (intro allI impI)
    fix k assume k: "k < length (page # pages)"
    show "get_flixable_movie_urls env (snd (page_request params ((page # pages) ! k)))
             (lg @ map (page_request params) (take k (page # pages))) =
            (Inr ((d # dicts) ! k), lg @ map (page_request params) (take (Suc k) (page # pages)))"
    proof (cases k)
      case 0
      with h lg1 show ?thesis by (simp add: page_request_def)
    next
      case (Suc j)
      with k each lg1 show ?thesis by simp
    qed
  qed
  with log len urls lg1 show ?case
    by (intro conjI exI[of _ "d # dicts"]) simp_all
qed

lemma pages_1_30:
  "[1..30] = [1, 2, 3, 4, 5, 6, 7, 8, 9, 10, 11, 12, 13, 14, 15, 16, 17, 18, 19, 20,
              21, 22, 23, 24, 25, 26, 27, 28, 29, 30 :: int]"
  by code_simp

lemma demo_harvest:
  "harvest_pages demo_env [1..N_PAGES] flixable_params [] [] =
    (Inr [''http://www.flixable.com/title/3/'', ''http://www.flixable.com/title/2/''],
     map (page_request flixable_params) [1..30])"
  by (simp add: N_PAGES_def pages_1_30 flixable_params_def get_flixable_movie_urls_def
        http_get_def Let_def demo_defs page_request_def)

lemma movie_page_urls_loop_append:
  "movie_page_urls_loop (xs @ ys) d =
     (case movie_page_urls_loop xs d of Inl e \<Rightarrow> Inl e | Inr d' \<Rightarrow> movie_page_urls_loop ys d')"
  by (induction xs arbitrary: d) (auto split: option.splits)

lemma movie_page_urls_loop_other_keys:
  "movie_page_urls_loop ts d0 = Inr d \<Longrightarrow> k \<notin> tag_text ` set ts \<Longrightarrow> map_of d k = map_of d0 k"
  by (induction ts arbitrary: d0) (auto simp: update_conv' split: option.splits)

lemma movie_page_urls_loop_distinct:
  "movie_page_urls_loop ts d0 = Inr d \<Longrightarrow> distinct (map fst d0) \<Longrightarrow> distinct (map fst d)"
  by (induction ts arbitrary: d0) (auto simp: distinct_update split: option.splits)

lemma movie_page_urls_loop_last_wins:
  assumes "movie_page_urls_loop (pre @ t # post) d0 = Inr d"
    and "tag_text t \<notin> tag_text ` set post"
  shows "\<exists>h. map_of (tag_attrs t) ''href'' = Some h \<and>
              map_of d (tag_text t) = Some (FLIXABLE_REQUEST_URL @ h)"
proof -
  from assms(1) obtain d1 where pre: "movie_page_urls_loop pre d0 = Inr d1"
    and rest: "movie_page_urls_loop (t # post) d1 = Inr d"
    by (auto simp: movie_page_urls_loop_append split: sum.splits)
  from rest obtain h where h: "map_of (tag_attrs t) ''href'' = Some h"
    and post: "movie_page_urls_loop post
                 (AList.update (tag_text t) (FLIXABLE_REQUEST_URL @ h) d1) = Inr d"
    by (auto split: option.splits)
  from movie_page_urls_loop_other_keys[OF post assms(2)]
  have "map_of d (tag_text t) = Some (FLIXABLE_REQUEST_URL @ h)"
    by (simp add: update_conv')
  with h show ?thesis by blast
qed

lemma single_entry:
  "distinct (map fst d) \<Longrightarrow> map_of d k = Some v \<Longrightarrow> filter (\<lambda>kv. fst kv = k) d = [(k, v)]"
proof (induction d)
  case Nil
  then show ?case by simp
next
  case (Cons p d)
  show ?case
  proof (cases "fst p = k")
    case True
    with Cons.prems have "p = (k, v)" by (cases p) auto
    moreover from True Cons.prems have "filter (\<lambda>kv. fst kv = k) d = []"
      by (auto simp: filter_empty_conv image_iff)
    ultimately show ?thesis by simp
  next
    case False
    with Cons show ?thesis by auto
  qed
qed

lemma get_info_step_log: "\<exists>ext. snd (get_info_step env url lg) = lg @ ext"
  by (auto simp: get_info_step_def http_get_def get_extra_info_def Let_def
           split: prod.splits sum.splits pyval.splits if_splits)

lemma get_info_loop_log: "\<exists>ext. snd (get_info_loop env urls acc lg) = lg @ ext"
proof (induction urls arbitrary: acc lg)
  case Nil
  show ?case by simp
next
  case (Cons url urls)
  obtain r lg1 where step: "get_info_step env url lg = (r, lg1)" by force
  with get_info_step_log[of env url lg] obtain e1 where lg1: "lg1 = lg @ e1" by auto
  show ?case
  proof (cases r)
    case (Inl e)
    with step lg1 show ?thesis by simp
  next
    case (Inr d)
    from Cons.IH[of "acc @ [d]" lg1] obtain e2
      where "snd (get_info_loop env urls (acc @ [d]) lg1) = lg1 @ e2" by blast
    with step Inr lg1 show ?thesis by simp
  qed
qed

lemma get_info_log: "\<exists>ext. snd (get_info env urls lg) = lg @ ext"
  using get_info_loop_log[of env urls "[]" lg]
  by (auto simp: get_info_def split: prod.splits sum.splits)

lemma demo_list_page:
  "requests_get demo_env [] (FLIXABLE_REQUEST_URL, AList.update ''page'' (PInt 1) flixable_params) =
     Inr \<lparr>resp_ok = True, resp_text = ''list'', resp_json = Inl JSONDecodeError\<rparr>"
  by (simp add: demo_defs flixable_params_def)

lemma demo_movie_titles:
  "soup_select (BeautifulSoup demo_env ''list'') MOVIE_TITLE_SELECTOR =
     [\<lparr>tag_text = ''A'', tag_attrs = [(''href'', ''/title/1/'')]\<rparr>,
      \<lparr>tag_text = ''B'', tag_attrs = [(''href'', ''/title/2/'')]\<rparr>,
      \<lparr>tag_text = ''A'', tag_attrs = [(''href'', ''/title/3/'')]\<rparr>]"
  by (simp add: demo_defs)

text \<open>
  C7, amended. When the HTTP client returns a response for the list page (whatever its
  status) and every element matching the title selector has an \<^verbatim>\<open>href\<close>, the harvester
  returns a mapping and raises nothing; the mapping is empty when no element matches. Its
  keys are the distinct visible texts of the matched elements, and the value of a text is
  the base URL followed by the \<^verbatim>\<open>href\<close> of the last element with that text. There is one
  entry per matched element, in the order of the page, when the texts are all distinct.
\<close>

theorem movie_urls_of_page:
  assumes "requests_get env lg (FLIXABLE_REQUEST_URL, params) = Inr response"
    and "movie_titles = soup_select (BeautifulSoup env (resp_text response)) MOVIE_TITLE_SELECTOR"
    and "map (\<lambda>t. map_of (tag_attrs t) ''href'') movie_titles = map Some hrefs"
  shows "\<exists>d. get_flixable_movie_urls env params lg = (Inr d, lg @ [(FLIXABLE_REQUEST_URL, params)]) \<and>
           (movie_titles = [] \<longrightarrow> d = []) \<and>
           distinct (map fst d) \<and>
           fst ` set d = tag_text ` set movie_titles \<and>
           map_of d = map_of (rev (zip (map tag_text movie_titles)
                                       (map ((@) FLIXABLE_REQUEST_URL) hrefs))) \<and>
           (distinct (map tag_text movie_titles) \<longrightarrow>
              d = zip (map tag_text movie_titles) (map ((@) FLIXABLE_REQUEST_URL) hrefs))"
proof -
  let ?ks = "map tag_text movie_titles" and ?vs = "map ((@) FLIXABLE_REQUEST_URL) hrefs"
  let ?d = "AList.updates ?ks ?vs []"
  from assms(3) have "length movie_titles = length hrefs" by (rule map_eq_imp_length_eq)
  then have len: "length ?ks = length ?vs" by simp
  have run: "get_flixable_movie_urls env params lg = (Inr ?d, lg @ [(FLIXABLE_REQUEST_URL, params)])"
    using harvester_result[OF assms(1)] assms(2) movie_page_urls_loop_updates[OF assms(3)]
    by simp
  have "movie_titles = [] \<longrightarrow> ?d = []" by simp
  moreover have "distinct (map fst ?d)" by (simp add: distinct_updates)
  moreover have "fst ` set ?d = tag_text ` set movie_titles"
    using keys_updates[OF len, of "[]"] by simp
  moreover have "map_of ?d = map_of (rev (zip ?ks ?vs))"
    using len by (rule map_of_updates_last)
  moreover have "distinct ?ks \<longrightarrow> ?d = zip ?ks ?vs"
    using updates_fresh[of ?ks ?vs "[]"] len by simp
  ultimately show ?thesis using run by blast
qed

theorem movie_urls_of_page_witness:
  "\<exists>d. get_flixable_movie_urls demo_env (AList.update ''page'' (PInt 1) flixable_params) [] =
          (Inr d, [] @ [(FLIXABLE_REQUEST_URL, AList.update ''page'' (PInt 1) flixable_params)]) \<and>
        distinct (map fst d) \<and> fst ` set d = {''A'', ''B''} \<and>
        map_of d ''A'' = Some ''http://www.flixable.com/title/3/'' \<and>
        map_of d ''B'' = Some ''http://www.flixable.com/title/2/''"
proof -
  let ?ts = "[\<lparr>tag_text = ''A'', tag_attrs = [(''href'', ''/title/1/'')]\<rparr>,
      \<lparr>tag_text = ''B'', tag_attrs = [(''href'', ''/title/2/'')]\<rparr>,
      \<lparr>tag_text = ''A'', tag_attrs = [(''href'', ''/title/3/'')]\<rparr>]"
  have sel: "?ts = soup_select (BeautifulSoup demo_env
      (resp_text \<lparr>resp_ok = True, resp_text = ''list'', resp_json = Inl JSONDecodeError\<rparr>))
      MOVIE_TITLE_SELECTOR"
    by (simp add: demo_movie_titles)
  have hrefs: "map (\<lambda>t. map_of (tag_attrs t) ''href'') ?ts =
      map Some [''/title/1/'', ''/title/2/'', ''/title/3/'']"
    by simp
  from movie_urls_of_page[OF demo_list_page sel hrefs] obtain d where
    d: "get_flixable_movie_urls demo_env (AList.update ''page'' (PInt 1) flixable_params) [] =
          (Inr d, [] @ [(FLIXABLE_REQUEST_URL, AList.update ''page'' (PInt 1) flixable_params)])"
      "distinct (map fst d)" "fst ` set d = tag_text ` set ?ts"
      "map_of d = map_of (rev (zip (map tag_text ?ts)
          (map ((@) FLIXABLE_REQUEST_URL) [''/title/1/'', ''/title/2/'', ''/title/3/''])))"
    by blast
  from d(3) have keys: "fst ` set d = {''A'', ''B''}" by auto
  from d(4) have "map_of d ''A'' = Some ''http://www.flixable.com/title/3/''"
    and "map_of d ''B'' = Some ''http://www.flixable.com/title/2/''"
    by (simp_all add: FLIXABLE_REQUEST_URL_def)
  with d(1,2) keys show ?thesis by blast
qed

text \<open>
  C7 as stated fails on a page where two matched elements have the same text: three
  elements match, the mapping has two entries.
\<close>

theorem movie_urls_of_page_counterexample:
  "length (soup_select (BeautifulSoup demo_env ''list'') MOVIE_TITLE_SELECTOR) = 3 \<and>
   get_flixable_movie_urls demo_env (AList.update ''page'' (PInt 1) flixable_params) [] =
     (Inr [(''A'', ''http://www.flixable.com/title/3/''), (''B'', ''http://www.flixable.com/title/2/'')],
      [(''http://www.flixable.com'',
        [(''min-rating'', PInt 0), (''min-year'', PInt 0), (''max-year'', PInt 3000),
         (''order'', PStr ''date''), (''page'', PInt 1)])])"
  by (simp add: get_flixable_movie_urls_def http_get_def Let_def demo_defs flixable_params_def)

subsection \<open>Repeated titles\<close>

lemma two_occurrences:
  assumes "k1 < k2" and "k2 < length xss" and "a \<in> set (xss ! k1)" and "b \<in> set (xss ! k2)"
  shows "\<exists>xs ys zs. concat xss = xs @ a # ys @ b # zs"
proof -
  from assms(1,2) have k1: "k1 < length xss" by simp
  have s1: "xss = take k1 xss @ xss ! k1 # drop (Suc k1) xss"
    using k1 by (rule id_take_nth_drop)
  let ?rest = "drop (Suc k1) xss" and ?j = "k2 - Suc k1"
  from assms(1,2) have j: "?j < length ?rest" by simp
  from assms(1,2) have nth: "?rest ! ?j = xss ! k2" by simp
  have s2: "?rest = take ?j ?rest @ xss ! k2 # drop (Suc ?j) ?rest"
    using id_take_nth_drop[OF j] nth by simp
  from assms(3) obtain p1 q1 where a: "xss ! k1 = p1 @ a # q1" by (auto dest: split_list)
  from assms(4) obtain p2 q2 where b: "xss ! k2 = p2 @ b # q2" by (auto dest: split_list)
  have "concat xss = concat (take k1 xss) @ xss ! k1 @ concat ?rest"
    by (subst s1) simp
  also have "concat ?rest = concat (take ?j ?rest) @ xss ! k2 @ concat (drop (Suc ?j) ?rest)"
    by (subst s2) simp
  finally have "concat xss =
     (concat (take k1 xss) @ p1) @ a # (q1 @ concat (take ?j ?rest) @ p2) @ b #
       (q2 @ concat (drop (Suc ?j) ?rest))"
    by (simp add: a b)
  then show ?thesis by blast
qed

lemma harvest_pages_of_dicts:
  assumes "length dicts = length pages"
    and "\<forall>k < length pages.
           get_flixable_movie_urls env (snd (page_request params (pages ! k)))
              (lg @ map (page_request params) (take k pages)) =
             (Inr (dicts ! k), lg @ map (page_request params) (take (Suc k) pages))"
  shows "harvest_pages env pages params movie_urls0 lg =
           (Inr (movie_urls0 @ concat (map (map snd) dicts)),
            lg @ map (page_request params) pages)"
  using assms
proof (induction pages arbitrary: dicts params movie_urls0 lg)
  case Nil
  then show ?case by simp
next
  case (Cons page pages)
  let ?ps = "AList.update ''page'' (PInt page) params"
  from Cons.prems(1) obtain d ds where dicts: "dicts = d # ds" and len: "length ds = length pages"
    by (cases dicts) auto
  from Cons.prems(2)[rule_format, of 0]
  have h: "get_flixable_movie_urls env ?ps lg = (Inr d, lg @ [page_request params page])"
    by (simp add: dicts page_request_def)
  have pr: "page_request ?ps = page_request params" by (rule ext) simp
  have each: "\<forall>k < length pages.
           get_flixable_movie_urls env (snd (page_request ?ps (pages ! k)))
              ((lg @ [page_request params page]) @ map (page_request ?ps) (take k pages)) =
             (Inr (ds ! k),
              (lg @ [page_request params page]) @ map (page_request ?ps) (take (Suc k) pages))"
  proof (intro allI impI)
    fix k assume "k < length pages"
    with Cons.prems(2)[rule_format, of "Suc k"] show
      "get_flixable_movie_urls env (snd (page_request ?ps (pages ! k)))
              ((lg @ [page_request params page]) @ map (page_request ?ps) (take k pages)) =
             (Inr (ds ! k),
              (lg @ [page_request params page]) @ map (page_request ?ps) (take (Suc k) pages))"
      by (simp add: dicts pr)
  qed
  from Cons.IH[OF len each, of "movie_urls0 @ map snd d"] h
  show ?case by (simp add: dicts Let_def pr)
qed

lemma two_page_list_page:
  "requests_get two_page_env [] (FLIXABLE_REQUEST_URL, AList.update ''page'' (PInt 1) flixable_params) =
     Inr \<lparr>resp_ok = True, resp_text = ''list'', resp_json = Inl JSONDecodeError\<rparr>"
  by (simp add: two_page_env_def flixable_params_def)

lemma two_page_harvester:
  "\<forall>k < length [1, 2 :: int].
     get_flixable_movie_urls two_page_env (snd (page_request flixable_params ([1, 2] ! k)))
        ([] @ map (page_request flixable_params) (take k [1, 2])) =
       (Inr ([[(''A'', ''http://www.flixable.com/title/3/''),
               (''B'', ''http://www.flixable.com/title/2/'')],
              [(''A'', ''http://www.flixable.com/title/4/'')]] ! k),
        [] @ map (page_request flixable_params) (take (Suc k) [1, 2]))"
  by (auto simp: less_Suc_eq get_flixable_movie_urls_def http_get_def Let_def two_page_env_def
        list_soup_def list_soup2_def page_request_def flixable_params_def
        FLIXABLE_REQUEST_URL_def MOVIE_TITLE_SELECTOR_def)

text \<open>
  C10. Within one page: when every matched element has an \<^verbatim>\<open>href\<close>, two matched elements
  have the same visible text and no later element has it, the harvester returns a mapping
  with a single entry for that text, whose value is the URL of the later element. Across
  pages: when the harvester returns a mapping for each page, the harvest returns the
  concatenation, page after page, of the values of these mappings; its length is the sum
  of their sizes, and a title that is in the mappings of two different pages contributes
  both of its URLs, the one of the earlier page before the one of the later page.
\<close>

theorem duplicate_titles:
  "(requests_get env lg (FLIXABLE_REQUEST_URL, params) = Inr response \<and>
    soup_select (BeautifulSoup env (resp_text response)) MOVIE_TITLE_SELECTOR =
      pre @ t1 # mid @ t2 # post \<and>
    map (\<lambda>t. map_of (tag_attrs t) ''href'') (pre @ t1 # mid @ t2 # post) = map Some hrefs \<and>
    tag_text t1 = tag_text t2 \<and> tag_text t2 \<notin> tag_text ` set post \<longrightarrow>
      (\<exists>d h. get_flixable_movie_urls env params lg =
                (Inr d, lg @ [(FLIXABLE_REQUEST_URL, params)]) \<and>
             map_of (tag_attrs t2) ''href'' = Some h \<and>
             filter (\<lambda>kv. fst kv = tag_text t1) d = [(tag_text t1, FLIXABLE_REQUEST_URL @ h)])) \<and>
   (length dicts = length pages \<and>
    (\<forall>k < length pages.
       get_flixable_movie_urls env (snd (page_request params0 (pages ! k)))
          (lg0 @ map (page_request params0) (take k pages)) =
         (Inr (dicts ! k), lg0 @ map (page_request params0) (take (Suc k) pages))) \<longrightarrow>
      (\<exists>movie_urls.
         harvest_pages env pages params0 movie_urls0 lg0 =
           (Inr movie_urls, lg0 @ map (page_request params0) pages) \<and>
         movie_urls = movie_urls0 @ concat (map (map snd) dicts) \<and>
         length movie_urls = length movie_urls0 + sum_list (map length dicts) \<and>
         (\<forall>k1 k2 title u1 u2.
            k1 < k2 \<and> k2 < length pages \<and>
            (title, u1) \<in> set (dicts ! k1) \<and> (title, u2) \<in> set (dicts ! k2) \<longrightarrow>
              (\<exists>xs ys zs. movie_urls = xs @ u1 # ys @ u2 # zs))))"
proof (intro conjI impI)
  assume a: "requests_get env lg (FLIXABLE_REQUEST_URL, params) = Inr response \<and>
    soup_select (BeautifulSoup env (resp_text response)) MOVIE_TITLE_SELECTOR =
      pre @ t1 # mid @ t2 # post \<and>
    map (\<lambda>t. map_of (tag_attrs t) ''href'') (pre @ t1 # mid @ t2 # post) = map Some hrefs \<and>
    tag_text t1 = tag_text t2 \<and> tag_text t2 \<notin> tag_text ` set post"
  let ?ts = "pre @ t1 # mid @ t2 # post"
  let ?d = "AList.updates (map tag_text ?ts) (map ((@) FLIXABLE_REQUEST_URL) hrefs) []"
  from a have hrefs: "map (\<lambda>t. map_of (tag_attrs t) ''href'') ?ts = map Some hrefs" by simp
  have loop: "movie_page_urls_loop ((pre @ t1 # mid) @ t2 # post) [] = Inr ?d"
    using movie_page_urls_loop_updates[OF hrefs, of "[]"] by simp
  have run: "get_flixable_movie_urls env params lg = (Inr ?d, lg @ [(FLIXABLE_REQUEST_URL, params)])"
    using a harvester_result[of env lg params response] loop by simp
  from movie_page_urls_loop_last_wins[OF loop] a obtain h
    where h: "map_of (tag_attrs t2) ''href'' = Some h"
      and v: "map_of ?d (tag_text t2) = Some (FLIXABLE_REQUEST_URL @ h)" by blast
  from movie_page_urls_loop_distinct[OF loop] have "distinct (map fst ?d)" by simp
  from single_entry[OF this v] a
  have "filter (\<lambda>kv. fst kv = tag_text t1) ?d = [(tag_text t1, FLIXABLE_REQUEST_URL @ h)]"
    by simp
  with run h
  show "\<exists>d h. get_flixable_movie_urls env params lg =
                (Inr d, lg @ [(FLIXABLE_REQUEST_URL, params)]) \<and>
             map_of (tag_attrs t2) ''href'' = Some h \<and>
             filter (\<lambda>kv. fst kv = tag_text t1) d = [(tag_text t1, FLIXABLE_REQUEST_URL @ h)]"
    by blast
next
  assume b: "length dicts = length pages \<and>
    (\<forall>k < length pages.
       get_flixable_movie_urls env (snd (page_request params0 (pages ! k)))
          (lg0 @ map (page_request params0) (take k pages)) =
         (Inr (dicts ! k), lg0 @ map (page_request params0) (take (Suc k) pages)))"
  let ?urls = "movie_urls0 @ concat (map (map snd) dicts)"
  from b have run: "harvest_pages env pages params0 movie_urls0 lg0 =
      (Inr ?urls, lg0 @ map (page_request params0) pages)"
    by (intro harvest_pages_of_dicts) simp_all
  have len: "length ?urls = length movie_urls0 + sum_list (map length dicts)"
    by (simp add: length_concat comp_def)
  have two: "\<exists>xs ys zs. ?urls = xs @ u1 # ys @ u2 # zs"
    if "k1 < k2 \<and> k2 < length pages \<and>
        (title, u1) \<in> set (dicts ! k1) \<and> (title, u2) \<in> set (dicts ! k2)"
    for k1 k2 title u1 u2
  proof -
    from that b have k: "k1 < k2" "k2 < length (map (map snd) dicts)" by simp_all
    from that b have "u1 \<in> set (map (map snd) dicts ! k1)" "u2 \<in> set (map (map snd) dicts ! k2)"
      by (auto simp: image_iff intro: bexI[of _ "(title, u1)"] bexI[of _ "(title, u2)"])
    from two_occurrences[OF k this] obtain xs ys zs
      where "concat (map (map snd) dicts) = xs @ u1 # ys @ u2 # zs" by blast
    then have "?urls = (movie_urls0 @ xs) @ u1 # ys @ u2 # zs" by simp
    then show ?thesis by blast
  qed
  from run len two
  show "\<exists>movie_urls.
         harvest_pages env pages params0 movie_urls0 lg0 =
           (Inr movie_urls, lg0 @ map (page_request params0) pages) \<and>
         movie_urls = movie_urls0 @ concat (map (map snd) dicts) \<and>
         length movie_urls = length movie_urls0 + sum_list (map length dicts) \<and>
         (\<forall>k1 k2 title u1 u2.
            k1 < k2 \<and> k2 < length pages \<and>
            (title, u1) \<in> set (dicts ! k1) \<and> (title, u2) \<in> set (dicts ! k2) \<longrightarrow>
              (\<exists>xs ys zs. movie_urls = xs @ u1 # ys @ u2 # zs))"
    by blast
qed

theorem duplicate_titles_witness:
  "(\<exists>d. get_flixable_movie_urls two_page_env (AList.update ''page'' (PInt 1) flixable_params) [] =
          (Inr d, [] @ [(FLIXABLE_REQUEST_URL, AList.update ''page'' (PInt 1) flixable_params)]) \<and>
        filter (\<lambda>kv. fst kv = ''A'') d = [(''A'', ''http://www.flixable.com/title/3/'')]) \<and>
   harvest_pages two_page_env [1, 2] flixable_params [] [] =
     (Inr [''http://www.flixable.com/title/3/'', ''http://www.flixable.com/title/2/'',
           ''http://www.flixable.com/title/4/''],
      [] @ map (page_request flixable_params) [1, 2]) \<and>
   (\<exists>xs ys zs.
      [''http://www.flixable.com/title/3/'', ''http://www.flixable.com/title/2/'',
       ''http://www.flixable.com/title/4/''] =
      xs @ ''http://www.flixable.com/title/3/'' # ys @ ''http://www.flixable.com/title/4/'' # zs)"
proof -
  let ?t1 = "\<lparr>tag_text = ''A'', tag_attrs = [(''href'', ''/title/1/'')]\<rparr>"
  let ?t2 = "\<lparr>tag_text = ''A'', tag_attrs = [(''href'', ''/title/3/'')]\<rparr>"
  let ?b = "\<lparr>tag_text = ''B'', tag_attrs = [(''href'', ''/title/2/'')]\<rparr>"
  let ?dicts = "[[(''A'', ''http://www.flixable.com/title/3/''),
                  (''B'', ''http://www.flixable.com/title/2/'')],
                 [(''A'', ''http://www.flixable.com/title/4/'')]]"
  note inst = duplicate_titles[of two_page_env "[]"
      "AList.update ''page'' (PInt 1) flixable_params"
      "\<lparr>resp_ok = True, resp_text = ''list'', resp_json = Inl JSONDecodeError\<rparr>"
      "[]" "?t1" "[?b]" "?t2" "[]" "[''/title/1/'', ''/title/2/'', ''/title/3/'']"
      "?dicts" "[1, 2]" flixable_params "[]" "[]"]
  have sel: "soup_select (BeautifulSoup two_page_env
      (resp_text \<lparr>resp_ok = True, resp_text = ''list'', resp_json = Inl JSONDecodeError\<rparr>))
      MOVIE_TITLE_SELECTOR = [] @ ?t1 # [?b] @ ?t2 # []"
    by (simp add: two_page_env_def list_soup_def MOVIE_TITLE_SELECTOR_def)
  have hrefs: "map (\<lambda>t. map_of (tag_attrs t) ''href'') ([] @ ?t1 # [?b] @ ?t2 # []) =
      map Some [''/title/1/'', ''/title/2/'', ''/title/3/'']"
    by simp
  have same: "tag_text ?t1 = tag_text ?t2 \<and> tag_text ?t2 \<notin> tag_text ` set []" by simp
  from inst[THEN conjunct1, THEN mp, OF conjI[OF two_page_list_page conjI[OF sel conjI[OF hrefs same]]]]
  obtain d h where
    d: "get_flixable_movie_urls two_page_env (AList.update ''page'' (PInt 1) flixable_params) [] =
          (Inr d, [] @ [(FLIXABLE_REQUEST_URL, AList.update ''page'' (PInt 1) flixable_params)])"
    and h: "map_of (tag_attrs ?t2) ''href'' = Some h"
    and one: "filter (\<lambda>kv. fst kv = tag_text ?t1) d = [(tag_text ?t1, FLIXABLE_REQUEST_URL @ h)]"
    by blast
  from h one have "filter (\<lambda>kv. fst kv = ''A'') d = [(''A'', ''http://www.flixable.com/title/3/'')]"
    by (simp add: FLIXABLE_REQUEST_URL_def)
  with d have partA:
    "\<exists>d. get_flixable_movie_urls two_page_env (AList.update ''page'' (PInt 1) flixable_params) [] =
          (Inr d, [] @ [(FLIXABLE_REQUEST_URL, AList.update ''page'' (PInt 1) flixable_params)]) \<and>
        filter (\<lambda>kv. fst kv = ''A'') d = [(''A'', ''http://www.flixable.com/title/3/'')]"
    by blast
  have len: "length ?dicts = length [1, 2 :: int]" by simp
  from inst[THEN conjunct2, THEN mp, OF conjI[OF len two_page_harvester]]
  obtain movie_urls where
    run: "harvest_pages two_page_env [1, 2] flixable_params [] [] =
           (Inr movie_urls, [] @ map (page_request flixable_params) [1, 2])"
    and urls: "movie_urls = [] @ concat (map (map snd) ?dicts)"
    and two: "\<forall>k1 k2 title u1 u2.
            k1 < k2 \<and> k2 < length [1, 2 :: int] \<and>
            (title, u1) \<in> set (?dicts ! k1) \<and> (title, u2) \<in> set (?dicts ! k2) \<longrightarrow>
              (\<exists>xs ys zs. movie_urls = xs @ u1 # ys @ u2 # zs)"
    by blast
  from urls have u: "movie_urls = [''http://www.flixable.com/title/3/'',
      ''http://www.flixable.com/title/2/'', ''http://www.flixable.com/title/4/'']" by simp
  from two[rule_format, of 0 1 "''A''" "''http://www.flixable.com/title/3/''"
      "''http://www.flixable.com/title/4/''"]
  have "\<exists>xs ys zs. movie_urls =
      xs @ ''http://www.flixable.com/title/3/'' # ys @ ''http://www.flixable.com/title/4/'' # zs"
    by simp
  with partA run u show ?thesis by simp
qed

subsection \<open>The order of the run\<close>

text \<open>
  C8. The requests of the harvest are list-page requests for the page numbers 1, 2, ... in
  ascending order, one per harvester call, never beyond page 30. When the harvest completes,
  they are exactly the 30 requests for the pages 1 to 30, one harvester call per page, the
  list of URLs is the concatenation of the values of the 30 mappings, and
  \<^verbatim>\<open>get_info\<close> is called on that whole list afterwards: every request of the enrichment
  comes after the 30 requests of the harvest. When a harvester call raises, the run ends
  there and no enrichment begins.
\<close>

theorem harvest_before_enrichment:
  "(\<exists>n \<le> 30. snd (harvest_pages env [1..N_PAGES] flixable_params [] []) =
       map (page_request flixable_params) (take n [1..30])) \<and>
   (harvest_pages env [1..N_PAGES] flixable_params [] [] = (Inr movie_urls, lg) \<longrightarrow>
      lg = map (page_request flixable_params) [1..30] \<and> length lg = 30 \<and>
      (\<exists>dicts. length dicts = 30 \<and>
         (\<forall>k < 30. get_flixable_movie_urls env (snd (page_request flixable_params (int k + 1)))
                      (take k lg) = (Inr (dicts ! k), take (Suc k) lg)) \<and>
         movie_urls = concat (map (map snd) dicts)) \<and>
      scrape env = get_info env movie_urls lg \<and>
      (\<exists>enrich. snd (scrape env) = lg @ enrich)) \<and>
   (harvest_pages env [1..N_PAGES] flixable_params [] [] = (Inl e, lg) \<longrightarrow>
      scrape env = (Inl e, lg))"
proof (intro conjI impI)
  from harvest_pages_log_prefix[of "[1..N_PAGES]" env flixable_params "[]" "[]"]
  show "\<exists>n \<le> 30. snd (harvest_pages env [1..N_PAGES] flixable_params [] []) =
       map (page_request flixable_params) (take n [1..30])"
    by (auto simp: N_PAGES_def)
next
  assume h: "harvest_pages env [1..N_PAGES] flixable_params [] [] = (Inr movie_urls, lg)"
  from harvest_pages_Inr[OF h] obtain dicts where
    lg: "lg = map (page_request flixable_params) [1..30]" and
    len: "length dicts = 30" and
    urls: "movie_urls = concat (map (map snd) dicts)" and
    each: "\<forall>k < 30.
            get_flixable_movie_urls env (snd (page_request flixable_params ([1..30] ! k)))
               (map (page_request flixable_params) (take k [1..30])) =
              (Inr (dicts ! k), map (page_request flixable_params) (take (Suc k) [1..30]))"
    by (auto simp: N_PAGES_def)
  show "lg = map (page_request flixable_params) [1..30]" by (rule lg)
  show "length lg = 30" by (simp add: lg)
  have "\<forall>k < 30. get_flixable_movie_urls env (snd (page_request flixable_params (int k + 1)))
                      (take k lg) = (Inr (dicts ! k), take (Suc k) lg)"
  proof (intro allI impI)
    fix k :: nat assume k: "k < 30"
    then have "[1..30] ! k = 1 + int k" by (intro nth_upto) simp
    with each k show "get_flixable_movie_urls env (snd (page_request flixable_params (int k + 1)))
                      (take k lg) = (Inr (dicts ! k), take (Suc k) lg)"
      by (simp add: lg take_map add.commute)
  qed
  with len urls show "\<exists>dicts. length dicts = 30 \<and>
         (\<forall>k < 30. get_flixable_movie_urls env (snd (page_request flixable_params (int k + 1)))
                      (take k lg) = (Inr (dicts ! k), take (Suc k) lg)) \<and>
         movie_urls = concat (map (map snd) dicts)" by blast
  show s: "scrape env = get_info env movie_urls lg" using h by (simp add: scrape_def)
  from get_info_log[of env movie_urls lg] s
  show "\<exists>enrich. snd (scrape env) = lg @ enrich" by simp
next
  assume "harvest_pages env [1..N_PAGES] flixable_params [] [] = (Inl e, lg)"
  then show "scrape env = (Inl e, lg)" by (simp add: scrape_def)
qed

theorem harvest_before_enrichment_witness:
  "harvest_pages demo_env [1..N_PAGES] flixable_params [] [] =
     (Inr [''http://www.flixable.com/title/3/'', ''http://www.flixable.com/title/2/''],
      map (page_request flixable_params) [1..30]) \<and>
   scrape demo_env =
     get_info demo_env [''http://www.flixable.com/title/3/'', ''http://www.flixable.com/title/2/'']
       (map (page_request flixable_params) [1..30]) \<and>
   length (map (page_request flixable_params) [1..30]) = 30"
  using harvest_before_enrichment[of demo_env
      "[''http://www.flixable.com/title/3/'', ''http://www.flixable.com/title/2/'']"
      "map (page_request flixable_params) [1..30]"] demo_harvest
  by blast


end
